theory Spec2Isabelle
  imports Complex_Main "HOL-Library.Word"
begin

section \<open>Python and numpy values used by unicornhathd.py\<close>

text \<open>
  The exceptions the module can raise on the paths modelled here: \<open>IndexError\<close> from
  list and array indexing, \<open>ValueError\<close> from \<open>reshape\<close>, from \<open>numpy.zeros\<close> with a
  negative dimension and from the colour-name lookup (\<open>raise ValueError('Invalid color!')\<close>),
  \<open>OverflowError\<close> from storing an integer that an int64 cell cannot hold and from
  converting an integer that no double can hold.
\<close>

datatype py_error = IndexError | ValueError | OverflowError

type_synonym pixel = "int \<times> int \<times> int"

text \<open>
  The pixel buffer is a numpy array of shape \<open>(dim0, dim1, 3)\<close> and dtype int. Its last
  axis always has length 3, so a cell of the first two axes is an RGB triple. Only cells
  inside the shape are ever read. A cell holds int64 values: the writes of \<open>set_pixel\<close>
  and \<open>set_all\<close> check the range (\<open>fits_int64\<close>).
\<close>

record ndarray =
  dim0 :: nat
  dim1 :: nat
  px :: "nat \<Rightarrow> nat \<Rightarrow> pixel"

text \<open>An array given by its shape and its cells; cells outside the shape are blanked.\<close>

definition array_of :: "nat \<Rightarrow> nat \<Rightarrow> (nat \<Rightarrow> nat \<Rightarrow> pixel) \<Rightarrow> ndarray" where
  "array_of n0 n1 f =
     \<lparr>dim0 = n0, dim1 = n1, px = (\<lambda>i j. if i < n0 \<and> j < n1 then f i j else (0, 0, 0))\<rparr>"

text \<open>\<open>numpy.zeros((w, h, 3), dtype=int)\<close>\<close>

definition zeros :: "nat \<Rightarrow> nat \<Rightarrow> ndarray" where
  "zeros w h = array_of w h (\<lambda>i j. (0, 0, 0))"

text \<open>
  Indexing a sequence of length \<open>n\<close> with one integer, as Python lists and numpy arrays
  do: an index in \<open>[-n, 0)\<close> counts from the end, an index outside \<open>[-n, n)\<close> raises
  IndexError (\<open>None\<close> here).
\<close>

definition py_index :: "nat \<Rightarrow> int \<Rightarrow> nat option" where
  "py_index n i =
     (if 0 \<le> i \<and> i < int n then Some (nat i)
      else if - int n \<le> i \<and> i < 0 then Some (nat (i + int n))
      else None)"

text \<open>
  One bound of a slice \<open>a:b\<close> (step 1) on a sequence of length \<open>n\<close>: a negative bound
  counts from the end, and the result is clipped into \<open>[0, n]\<close>.
\<close>

definition slice_bound :: "nat \<Rightarrow> int \<Rightarrow> nat" where
  "slice_bound n i = (if i < 0 then nat (max 0 (i + int n)) else nat (min i (int n)))"

text \<open>\<open>source[a:b, c:d]\<close>: rows \<open>a:b\<close> of axis 0 and columns \<open>c:d\<close> of axis 1.\<close>

definition slice2 :: "ndarray \<Rightarrow> int \<Rightarrow> int \<Rightarrow> int \<Rightarrow> int \<Rightarrow> ndarray" where
  "slice2 src a b c d =
     (let s0 = slice_bound (dim0 src) a; e0 = slice_bound (dim0 src) b;
          s1 = slice_bound (dim1 src) c; e1 = slice_bound (dim1 src) d
      in array_of (e0 - s0) (e1 - s1) (\<lambda>i j. px src (s0 + i) (s1 + j)))"

text \<open>\<open>numpy.flip(m, axis)\<close> on the first two axes, and the swap of these two axes.\<close>

definition flip0 :: "ndarray \<Rightarrow> ndarray" where
  "flip0 m = array_of (dim0 m) (dim1 m) (\<lambda>i j. px m (dim0 m - 1 - i) j)"

definition flip1 :: "ndarray \<Rightarrow> ndarray" where
  "flip1 m = array_of (dim0 m) (dim1 m) (\<lambda>i j. px m i (dim1 m - 1 - j))"

definition swapaxes :: "ndarray \<Rightarrow> ndarray" where
  "swapaxes m = array_of (dim1 m) (dim0 m) (\<lambda>i j. px m j i)"

text \<open>
  \<open>numpy.rot90(m, k)\<close> in the plane of the first two axes, as numpy defines it:
  \<open>k\<close> is reduced modulo 4 (Python's \<open>%\<close>, so the result is in \<open>0..3\<close> for a negative
  \<open>k\<close> too); 0 returns the array, 2 flips both axes, 1 is the transposed flip of axis 1
  and 3 the flip of axis 1 of the transpose.
\<close>

definition rot90 :: "ndarray \<Rightarrow> int \<Rightarrow> ndarray" where
  "rot90 m k =
     (let k' = k mod 4 in
      if k' = 0 then m
      else if k' = 2 then flip1 (flip0 m)
      else if k' = 1 then swapaxes (flip1 m)
      else flip1 (swapaxes m))"

text \<open>The values of an array in C order: the flat list \<open>reshape\<close> produces.\<close>

definition ravel :: "ndarray \<Rightarrow> int list" where
  "ravel m =
     concat (map (\<lambda>i. concat (map (\<lambda>j. case px m i j of (r, g, b) \<Rightarrow> [r, g, b])
                                    [0..<dim1 m]))
                 [0..<dim0 m])"

text \<open>\<open>m.reshape(768)\<close>: raises ValueError unless the array holds exactly 768 values.\<close>

definition reshape768 :: "ndarray \<Rightarrow> py_error + int list" where
  "reshape768 m = (if dim0 m * dim1 m * 3 = 768 then Inr (ravel m) else Inl ValueError)"

text \<open>
  \<open>.astype(numpy.uint8)\<close> on a scaled value \<open>q\<close>. For \<open>-1 < q < 2^31\<close> the cast drops
  the fraction (rounds toward zero) and keeps the low eight bits: with an integer
  brightness the product is an int64 and this is numpy's integer cast, with a float
  brightness it is what the C cast gives on the x86 and ARM builds. Outside that range
  the cast of a float is left to the platform (a product of \<open>2^31 + 3\<close> gives 0 on x86,
  not 3); \<open>wild q\<close> stands for the byte it gives there, so that nothing here depends
  on it.
\<close>

definition trunc :: "real \<Rightarrow> int" where
  "trunc q = (if 0 \<le> q then \<lfloor>q\<rfloor> else \<lceil>q\<rceil>)"

definition astype_uint8 :: "(real \<Rightarrow> 8 word) \<Rightarrow> real \<Rightarrow> 8 word" where
  "astype_uint8 wild q =
     (if - 1 < q \<and> q < 2147483648 then word_of_int (trunc q) else wild q)"

text \<open>One such platform choice, for the closed examples; none of their bytes uses it.\<close>

definition wild_zero :: "real \<Rightarrow> 8 word" where
  "wild_zero q = 0"

text \<open>The values an int64 cell can hold.\<close>

definition fits_int64 :: "int \<Rightarrow> bool" where
  "fits_int64 v \<longleftrightarrow> - 9223372036854775808 \<le> v \<and> v < 9223372036854775808"

text \<open>Saturation into \<open>[0, 255]\<close>, the conversion the specification asks for.\<close>

definition saturate :: "int \<Rightarrow> int" where
  "saturate n = max 0 (min 255 n)"

section \<open>Module state\<close>

definition SOF :: int where "SOF = 0x72"
definition WIDTH :: int where "WIDTH = 16"
definition HEIGHT :: int where "HEIGHT = 16"
definition PANEL_SHAPE :: "int \<times> int" where "PANEL_SHAPE = (16, 16)"

definition COLORS :: "(string \<times> pixel) list" where
  "COLORS =
     [(''red'', (255, 0, 0)), (''lime'', (0, 255, 0)), (''blue'', (0, 0, 255)),
      (''yellow'', (255, 255, 0)), (''magenta'', (255, 0, 255)), (''cyan'', (0, 255, 255)),
      (''black'', (0, 0, 0)), (''white'', (255, 255, 255)), (''gray'', (127, 127, 127)),
      (''grey'', (127, 127, 127)), (''silver'', (192, 192, 192)), (''maroon'', (128, 0, 0)),
      (''olive'', (128, 128, 0)), (''green'', (0, 128, 0)), (''teal'', (0, 128, 128)),
      (''navy'', (0, 0, 128)), (''orange'', (255, 165, 0)), (''gold'', (255, 215, 0)),
      (''purple'', (128, 0, 128)), (''indigo'', (75, 0, 130))]"

text \<open>class Display: one panel of the chain.\<close>

record display =
  disp_enabled :: bool
  disp_x :: int
  disp_y :: int
  disp_rotation :: int

text \<open>\<open>Display.update\<close>\<close>

definition update :: "display \<Rightarrow> int \<Rightarrow> int \<Rightarrow> int \<Rightarrow> display" where
  "update d x y rotation = d\<lparr>disp_x := x, disp_y := y, disp_rotation := rotation\<rparr>"

text \<open>\<open>Display.get_buffer_window\<close>\<close>

definition get_buffer_window :: "display \<Rightarrow> ndarray \<Rightarrow> ndarray" where
  "get_buffer_window d source =
     (let view = slice2 source (disp_x d) (disp_x d + fst PANEL_SHAPE)
                               (disp_y d) (disp_y d + snd PANEL_SHAPE)
      in rot90 view (disp_rotation d + 1))"

text \<open>
  The module globals. The SPI device is not part of the state: \<open>show\<close> returns the frames
  it hands to \<open>xfer2\<close>, in order. Opening the device in \<open>setup\<close> and the delay after
  each frame are not modelled.
\<close>

record state =
  st_rotation :: int
  st_brightness :: real
  st_buffer_width :: int
  st_buffer_height :: int
  st_addressing_enabled :: bool
  st_buf :: ndarray
  st_displays :: "display list"

definition initial_state :: state where
  "initial_state =
     \<lparr>st_rotation = 0, st_brightness = 1 / 2,
      st_buffer_width = WIDTH, st_buffer_height = HEIGHT,
      st_addressing_enabled = False,
      st_buf = zeros 16 16,
      st_displays = replicate 8 \<lparr>disp_enabled = False, disp_x = 0, disp_y = 0, disp_rotation = 0\<rparr>\<rparr>"

section \<open>Configuration\<close>

definition enable_addressing :: "state \<Rightarrow> bool \<Rightarrow> state" where
  "enable_addressing st en = st\<lparr>st_addressing_enabled := en\<rparr>"

text \<open>
  \<open>setup_buffer\<close> stores the two dimensions before it allocates, so they are changed
  even when \<open>numpy.zeros\<close> raises on a negative dimension.
\<close>

definition setup_buffer :: "state \<Rightarrow> int \<Rightarrow> int \<Rightarrow> py_error option \<times> state" where
  "setup_buffer st width height =
     (let st1 = st\<lparr>st_buffer_width := width, st_buffer_height := height\<rparr>
      in if width < 0 \<or> height < 0 then (Some ValueError, st1)
         else (None, st1\<lparr>st_buf := zeros (nat width) (nat height)\<rparr>))"

text \<open>\<open>_displays[address].enabled = enabled\<close>\<close>

definition enable_display :: "state \<Rightarrow> int \<Rightarrow> bool \<Rightarrow> py_error option \<times> state" where
  "enable_display st address en =
     (case py_index (length (st_displays st)) address of
        None \<Rightarrow> (Some IndexError, st)
      | Some k \<Rightarrow>
          (None, st\<lparr>st_displays :=
                      (st_displays st)[k := (st_displays st ! k)\<lparr>disp_enabled := en\<rparr>]\<rparr>))"

text \<open>\<open>_displays[address].update(x, y, rotation)\<close>, then \<open>enable_display(address)\<close>.\<close>

definition setup_display :: "state \<Rightarrow> int \<Rightarrow> int \<Rightarrow> int \<Rightarrow> int \<Rightarrow> py_error option \<times> state" where
  "setup_display st address x y rotation =
     (case py_index (length (st_displays st)) address of
        None \<Rightarrow> (Some IndexError, st)
      | Some k \<Rightarrow>
          enable_display
            (st\<lparr>st_displays := (st_displays st)[k := update (st_displays st ! k) x y rotation]\<rparr>)
            address True)"

definition set_brightness :: "state \<Rightarrow> real \<Rightarrow> state" where
  "set_brightness st b = st\<lparr>st_brightness := b\<rparr>"

text \<open>
  Python 3's \<open>round\<close> on a float: to the nearest integer, a tie to the even one.
\<close>

definition py_round :: "real \<Rightarrow> int" where
  "py_round q =
     (let f = \<lfloor>q\<rfloor>; d = q - of_int f
      in if d < 1 / 2 then f else if 1 / 2 < d then f + 1
         else if even f then f else f + 1)"

text \<open>
  \<open>_rotation = int(round(r / 90.0))\<close> for an angle \<open>r\<close>, an integer or a finite float.
  The quotient is computed in double precision: \<open>fdiv r\<close> stands for it, \<open>None\<close> when
  \<open>r\<close> is an integer too large for a double (the division then raises OverflowError
  and \<open>_rotation\<close> keeps its value). \<open>exact_div90\<close> is the exact quotient, which is the
  double quotient whenever it is a double, as for 360 and 135.
\<close>

definition set_rotation ::
  "(real \<Rightarrow> real option) \<Rightarrow> state \<Rightarrow> real \<Rightarrow> py_error option \<times> state" where
  "set_rotation fdiv st r =
     (case fdiv r of
        None \<Rightarrow> (Some OverflowError, st)
      | Some q \<Rightarrow> (None, st\<lparr>st_rotation := py_round q\<rparr>))"

definition exact_div90 :: "real \<Rightarrow> real option" where
  "exact_div90 r = Some (r / 90)"

definition get_rotation :: "state \<Rightarrow> int" where
  "get_rotation st = st_rotation st * 90"

definition get_shape :: "state \<Rightarrow> int \<times> int" where
  "get_shape st = (st_buffer_width st, st_buffer_height st)"

section \<open>Pixels\<close>

text \<open>
  The colour argument of \<open>set_all\<close> and \<open>set_pixel\<close>: a 3-tuple, a colour name, or the
  three components. Names are ASCII strings, lowercased by \<open>str.lower\<close>.
\<close>

datatype color_arg = ColorTuple int int int | ColorName string | ColorRGB int int int

definition lower_char :: "char \<Rightarrow> char" where
  "lower_char c =
     (case map_of (zip ''ABCDEFGHIJKLMNOPQRSTUVWXYZ'' ''abcdefghijklmnopqrstuvwxyz'') c of
        Some l \<Rightarrow> l
      | None \<Rightarrow> c)"

definition lower :: "string \<Rightarrow> string" where
  "lower s = map lower_char s"

definition resolve_color :: "color_arg \<Rightarrow> py_error + pixel" where
  "resolve_color c =
     (case c of
        ColorTuple r g b \<Rightarrow> Inr (r, g, b)
      | ColorName s \<Rightarrow>
          (case map_of COLORS (lower s) of None \<Rightarrow> Inl ValueError | Some p \<Rightarrow> Inr p)
      | ColorRGB r g b \<Rightarrow> Inr (r, g, b))"

text \<open>
  \<open>_buf[:] = r, g, b\<close> writes every cell of the buffer in place. The three values are
  converted to an int64 row before the buffer is touched, so a value out of range raises
  OverflowError with the buffer as it was.
\<close>

definition set_all :: "state \<Rightarrow> color_arg \<Rightarrow> py_error option \<times> state" where
  "set_all st c =
     (case resolve_color c of
        Inl e \<Rightarrow> (Some e, st)
      | Inr (r, g, b) \<Rightarrow>
          if fits_int64 r \<and> fits_int64 g \<and> fits_int64 b
          then (None, st\<lparr>st_buf :=
                        array_of (dim0 (st_buf st)) (dim1 (st_buf st)) (\<lambda>i j. (r, g, b))\<rparr>)
          else (Some OverflowError, st))"

text \<open>
  Storing \<open>r, g, b\<close> into one cell: numpy writes the three channels in order, and the
  first that an int64 cannot hold raises OverflowError, the channels before it written.
\<close>

definition store_pixel :: "pixel \<Rightarrow> pixel \<Rightarrow> py_error option \<times> pixel" where
  "store_pixel old new =
     (case old of (r0, g0, b0) \<Rightarrow>
        (case new of (r, g, b) \<Rightarrow>
           if \<not> fits_int64 r then (Some OverflowError, (r0, g0, b0))
           else if \<not> fits_int64 g then (Some OverflowError, (r, g0, b0))
           else if \<not> fits_int64 b then (Some OverflowError, (r, g, b0))
           else (None, (r, g, b))))"

text \<open>
  \<open>_buf[int(x)][int(y)] = r, g, b\<close>, with integer coordinates. The colour is resolved
  first, then axis 0 is indexed, then axis 1, then the values are stored.
\<close>

definition set_pixel :: "state \<Rightarrow> int \<Rightarrow> int \<Rightarrow> color_arg \<Rightarrow> py_error option \<times> state" where
  "set_pixel st x y c =
     (case resolve_color c of
        Inl e \<Rightarrow> (Some e, st)
      | Inr p \<Rightarrow>
          (case py_index (dim0 (st_buf st)) x of
             None \<Rightarrow> (Some IndexError, st)
           | Some i \<Rightarrow>
               (case py_index (dim1 (st_buf st)) y of
                  None \<Rightarrow> (Some IndexError, st)
                | Some j \<Rightarrow>
                    (case store_pixel (px (st_buf st) i j) p of
                       (e, q) \<Rightarrow>
                         (e, st\<lparr>st_buf := (st_buf st)\<lparr>px :=
                               (px (st_buf st))(i := (px (st_buf st) i)(j := q))\<rparr>\<rparr>)))))"

definition safe_set_pixel :: "state \<Rightarrow> int \<Rightarrow> int \<Rightarrow> color_arg \<Rightarrow> py_error option \<times> state" where
  "safe_set_pixel st x y c =
     (if x \<ge> 0 \<and> y \<ge> 0 \<and> x < WIDTH \<and> y < HEIGHT then set_pixel st x y c else (None, st))"

text \<open>\<open>tuple(_buf[int(x)][int(y)])\<close>\<close>

definition get_pixel :: "state \<Rightarrow> int \<Rightarrow> int \<Rightarrow> py_error + pixel" where
  "get_pixel st x y =
     (case py_index (dim0 (st_buf st)) x of
        None \<Rightarrow> Inl IndexError
      | Some i \<Rightarrow>
          (case py_index (dim1 (st_buf st)) y of
             None \<Rightarrow> Inl IndexError
           | Some j \<Rightarrow> Inr (px (st_buf st) i j)))"

definition get_pixels :: "state \<Rightarrow> ndarray" where
  "get_pixels st = st_buf st"

text \<open>
  \<open>set_pixels\<close> has no \<open>global _buf\<close> declaration: its assignment \<open>_buf = buf\<close> binds a
  local name and the module's buffer stays as it was.
\<close>

definition set_pixels :: "state \<Rightarrow> ndarray \<Rightarrow> state" where
  "set_pixels st b = st"

section \<open>Output\<close>

text \<open>
  \<open>(w.reshape(768) * _brightness).astype(numpy.uint8).tolist()\<close>. The product of a
  channel value and the brightness is computed by numpy; \<open>fmul v b\<close> stands for it, so
  that nothing here depends on how a float product is rounded. \<open>real_mul\<close> is the exact
  product, which is what numpy computes whenever that product is a double (and for an
  integer brightness within int64).
\<close>

definition real_mul :: "int \<Rightarrow> real \<Rightarrow> real" where
  "real_mul v b = of_int v * b"

text \<open>
  A product that stays in \<open>[0, 255]\<close> where the exact product does. The exact product
  does, and so does a correctly rounded one, since 0 and 255 are doubles.
\<close>

definition keeps_byte_range :: "(int \<Rightarrow> real \<Rightarrow> real) \<Rightarrow> bool" where
  "keeps_byte_range fmul \<longleftrightarrow>
     (\<forall>v b. 0 \<le> real_mul v b \<and> real_mul v b \<le> 255 \<longrightarrow> 0 \<le> fmul v b \<and> fmul v b \<le> 255)"

definition payload ::
  "(int \<Rightarrow> real \<Rightarrow> real) \<Rightarrow> (real \<Rightarrow> 8 word) \<Rightarrow> real \<Rightarrow> int list \<Rightarrow> int list" where
  "payload fmul wild b vals = map (\<lambda>v. uint (astype_uint8 wild (fmul v b))) vals"

definition frame ::
  "(int \<Rightarrow> real \<Rightarrow> real) \<Rightarrow> (real \<Rightarrow> 8 word) \<Rightarrow> real \<Rightarrow> int \<Rightarrow> ndarray
     \<Rightarrow> py_error + int list" where
  "frame fmul wild b header w =
     (case reshape768 w of
        Inl e \<Rightarrow> Inl e
      | Inr vals \<Rightarrow> Inr (header # payload fmul wild b vals))"

text \<open>The window of one panel, lines 454 to 457: both branches are the same expression.\<close>

definition show_window :: "state \<Rightarrow> display \<Rightarrow> ndarray" where
  "show_window st d =
     (if st_buffer_width st = st_buffer_height st \<or> st_rotation st \<in> {0, 2}
      then get_buffer_window d (rot90 (st_buf st) (st_rotation st))
      else get_buffer_window d (rot90 (st_buf st) (st_rotation st)))"

text \<open>
  The loop \<open>for address in range(8)\<close>. An exception ends the call; the frames sent before
  it stay sent.
\<close>

fun show_loop ::
  "(int \<Rightarrow> real \<Rightarrow> real) \<Rightarrow> (real \<Rightarrow> 8 word) \<Rightarrow> state \<Rightarrow> int list
     \<Rightarrow> py_error option \<times> int list list" where
  "show_loop fmul wild st [] = (None, [])"
| "show_loop fmul wild st (address # rest) =
     (case py_index (length (st_displays st)) address of
        None \<Rightarrow> (Some IndexError, [])
      | Some k \<Rightarrow>
          (let d = st_displays st ! k in
           if disp_enabled d then
             (case frame fmul wild (st_brightness st) (SOF + 1 + address) (show_window st d) of
                Inl e \<Rightarrow> (Some e, [])
              | Inr f \<Rightarrow> (case show_loop fmul wild st rest of (e, fs) \<Rightarrow> (e, f # fs)))
           else show_loop fmul wild st rest))"

definition "show" ::
  "(int \<Rightarrow> real \<Rightarrow> real) \<Rightarrow> (real \<Rightarrow> 8 word) \<Rightarrow> state
     \<Rightarrow> py_error option \<times> int list list" where
  "show fmul wild st =
     (if st_addressing_enabled st then show_loop fmul wild st [0..7]
      else (case frame fmul wild (st_brightness st) SOF
                   (rot90 (st_buf st) (st_rotation st)) of
              Inl e \<Rightarrow> (Some e, [])
            | Inr f \<Rightarrow> (None, [f])))"


section \<open>The specified window and the cells of an array\<close>

text \<open>
  The specification's words for the slice of a panel: the 16 by 16 square of cells whose
  top-left corner is at \<open>(x, y)\<close>, that is the cells \<open>(x + i, y + j)\<close> with
  \<open>i, j < 16\<close>; where the square leaves the array only the cells inside it remain.
\<close>

definition spec_subgrid16 :: "ndarray \<Rightarrow> int \<Rightarrow> int \<Rightarrow> ndarray" where
  "spec_subgrid16 src x y =
     (let r0 = max 0 x; r1 = min (int (dim0 src)) (x + 16);
          c0 = max 0 y; c1 = min (int (dim1 src)) (y + 16)
      in array_of (nat (r1 - r0)) (nat (c1 - c0)) (\<lambda>i j. px src (nat r0 + i) (nat c0 + j)))"

text \<open>
  The specified composition: rotate the whole buffer by the global step \<open>g\<close>, take the
  square at \<open>(x, y)\<close>, rotate it by the panel's step \<open>r\<close> plus one quarter-turn.
\<close>

definition spec_window :: "ndarray \<Rightarrow> int \<Rightarrow> int \<Rightarrow> int \<Rightarrow> int \<Rightarrow> ndarray" where
  "spec_window b g x y r = rot90 (spec_subgrid16 (rot90 b g) x y) (r + 1)"

text \<open>
  The position a valid index denotes: an index below 0 counts from the end of a
  sequence of length \<open>n\<close>.
\<close>

definition from_end :: "nat \<Rightarrow> int \<Rightarrow> nat" where
  "from_end n i = nat (if i < 0 then i + int n else i)"

text \<open>
  The chain as a render call sees it: the enabled addresses in ascending order, the
  window of the panel at an address, and whether a window fills a frame.
\<close>

definition enabled_addresses :: "state \<Rightarrow> int list" where
  "enabled_addresses st = filter (\<lambda>a. disp_enabled (st_displays st ! nat a)) [0..7]"

definition panel_window :: "state \<Rightarrow> int \<Rightarrow> ndarray" where
  "panel_window st a = show_window st (st_displays st ! nat a)"

definition window_full :: "ndarray \<Rightarrow> bool" where
  "window_full w \<longleftrightarrow> dim0 w * dim1 w * 3 = 768"

text \<open>The pixels an array holds inside its shape.\<close>

definition cells :: "ndarray \<Rightarrow> pixel set" where
  "cells m = {p. \<exists>i j. i < dim0 m \<and> j < dim1 m \<and> p = px m i j}"

section \<open>Example states\<close>

text \<open>
  A 32 by 16 buffer in addressed mode with the panel at address 2 on its first 16 rows
  and the panel at address 5 on its last 16 rows.
\<close>

definition two_panels :: state where
  "two_panels =
     snd (setup_display (snd (setup_display (snd (setup_buffer
       (enable_addressing initial_state True) 32 16)) 2 0 0 0)) 5 16 0 0)"

text \<open>Brightness 2 and the red channel of pixel (0, 0) at 200.\<close>

definition overdriven :: state where
  "overdriven = snd (set_pixel (set_brightness initial_state 2) 0 0 (ColorRGB 200 0 0))"

text \<open>The default brightness 0.5 and every pixel red.\<close>

definition half_red :: state where
  "half_red = snd (set_all initial_state (ColorName ''red''))"


section \<open>Indexing\<close>

lemma py_index_inside: "0 \<le> i \<Longrightarrow> i < int n \<Longrightarrow> py_index n i = Some (nat i)"
  by (simp add: py_index_def)

lemma py_index_None_iff: "py_index n i = None \<longleftrightarrow> (i < - int n \<or> int n \<le> i)"
  by (auto simp: py_index_def)

section \<open>Arrays\<close>

lemma dims_array_of [simp]: "dim0 (array_of n0 n1 f) = n0" "dim1 (array_of n0 n1 f) = n1"
  by (simp_all add: array_of_def)

lemma px_array_of: "px (array_of n0 n1 f) i j = (if i < n0 \<and> j < n1 then f i j else (0, 0, 0))"
  by (simp add: array_of_def)

lemma cells_array_of: "cells (array_of n0 n1 f) = {p. \<exists>i j. i < n0 \<and> j < n1 \<and> p = f i j}"
  unfolding cells_def by (simp add: px_array_of) metis

lemma cells_flip0: "cells (flip0 m) \<subseteq> cells m"
proof
  fix p assume "p \<in> cells (flip0 m)"
  then obtain i j where ij: "i < dim0 m" "j < dim1 m" "p = px m (dim0 m - 1 - i) j"
    unfolding flip0_def cells_array_of by blast
  then have "dim0 m - 1 - i < dim0 m" by simp
  with ij show "p \<in> cells m" unfolding cells_def by blast
qed

lemma cells_flip1: "cells (flip1 m) \<subseteq> cells m"
proof
  fix p assume "p \<in> cells (flip1 m)"
  then obtain i j where ij: "i < dim0 m" "j < dim1 m" "p = px m i (dim1 m - 1 - j)"
    unfolding flip1_def cells_array_of by blast
  then have "dim1 m - 1 - j < dim1 m" by simp
  with ij show "p \<in> cells m" unfolding cells_def by blast
qed

lemma cells_swapaxes: "cells (swapaxes m) \<subseteq> cells m"
  unfolding swapaxes_def cells_array_of by (auto simp: cells_def)

lemma cells_rot90: "cells (rot90 m k) \<subseteq> cells m"
  unfolding rot90_def Let_def
  using cells_flip0 [of m] cells_flip1 [of "flip0 m"] cells_flip1 [of m]
    cells_swapaxes [of "flip1 m"] cells_swapaxes [of m] cells_flip1 [of "swapaxes m"]
  by (simp, blast)

text \<open>
  What \<open>rot90\<close> does to the cells: one step is a quarter-turn that sends row \<open>j\<close> of the
  source to column \<open>j\<close> of the result, and the step counts modulo 4.
\<close>

lemma rot90_period: "rot90 m (k + 4) = rot90 m k"
  by (simp add: rot90_def)

lemma rot90_quarter:
  "dim0 (rot90 m 1) = dim1 m" "dim1 (rot90 m 1) = dim0 m"
  "i < dim1 m \<Longrightarrow> j < dim0 m \<Longrightarrow> px (rot90 m 1) i j = px m j (dim1 m - 1 - i)"
  by (simp_all add: rot90_def swapaxes_def flip1_def px_array_of)

lemma rot90_half:
  "dim0 (rot90 m 2) = dim0 m" "dim1 (rot90 m 2) = dim1 m"
  "i < dim0 m \<Longrightarrow> j < dim1 m \<Longrightarrow>
     px (rot90 m 2) i j = px m (dim0 m - 1 - i) (dim1 m - 1 - j)"
  by (simp_all add: rot90_def flip0_def flip1_def px_array_of)

lemma rot90_three_quarters:
  "dim0 (rot90 m 3) = dim1 m" "dim1 (rot90 m 3) = dim0 m"
  "i < dim1 m \<Longrightarrow> j < dim0 m \<Longrightarrow> px (rot90 m 3) i j = px m (dim0 m - 1 - j) i"
  by (simp_all add: rot90_def swapaxes_def flip1_def px_array_of)

lemma slice_bound_le: "slice_bound n i \<le> n"
  by (auto simp: slice_bound_def max_def min_def)

lemma cells_slice2: "cells (slice2 m a b c d) \<subseteq> cells m"
proof
  fix p assume "p \<in> cells (slice2 m a b c d)"
  then obtain i j where ij:
    "i < slice_bound (dim0 m) b - slice_bound (dim0 m) a"
    "j < slice_bound (dim1 m) d - slice_bound (dim1 m) c"
    "p = px m (slice_bound (dim0 m) a + i) (slice_bound (dim1 m) c + j)"
    unfolding slice2_def Let_def cells_array_of by blast
  have "slice_bound (dim0 m) a + i < dim0 m" "slice_bound (dim1 m) c + j < dim1 m"
    using ij(1,2) slice_bound_le [of "dim0 m" b] slice_bound_le [of "dim1 m" d] by linarith+
  with ij(3) show "p \<in> cells m" unfolding cells_def by blast
qed

lemma cells_get_buffer_window: "cells (get_buffer_window d m) \<subseteq> cells m"
  unfolding get_buffer_window_def Let_def
  using cells_rot90 [of "slice2 m (disp_x d) (disp_x d + fst PANEL_SHAPE)
                                  (disp_y d) (disp_y d + snd PANEL_SHAPE)" "disp_rotation d + 1"]
    cells_slice2 [of m] by blast

lemma show_window_eq:
  "show_window st d = get_buffer_window d (rot90 (st_buf st) (st_rotation st))"
  by (simp add: show_window_def)

lemma cells_show_window: "cells (show_window st d) \<subseteq> cells (st_buf st)"
  unfolding show_window_eq
  by (rule order_trans [OF cells_get_buffer_window cells_rot90])

lemma set_ravel: "set (ravel m) = (\<Union>p\<in>cells m. case p of (r, g, b) \<Rightarrow> {r, g, b})"
proof -
  have one: "set (case p of (r, g, b) \<Rightarrow> [r, g, b]) = (case p of (r, g, b) \<Rightarrow> {r, g, b})"
    for p :: pixel by (cases p) simp
  have "set (ravel m) =
          (\<Union>i\<in>{0..<dim0 m}. \<Union>j\<in>{0..<dim1 m}. case px m i j of (r, g, b) \<Rightarrow> {r, g, b})"
    unfolding ravel_def by (simp add: one)
  also have "\<dots> = (\<Union>p\<in>cells m. case p of (r, g, b) \<Rightarrow> {r, g, b})"
    unfolding cells_def by fastforce
  finally show ?thesis .
qed

lemma set_ravel_mono: "cells w \<subseteq> cells m \<Longrightarrow> set (ravel w) \<subseteq> set (ravel m)"
  unfolding set_ravel by blast

lemma hd_ravel:
  assumes "0 < dim0 m" "0 < dim1 m"
  shows "hd (ravel m) = fst (px m 0 0)"
proof -
  from assms have u: "[0..<dim0 m] = 0 # [1..<dim0 m]" "[0..<dim1 m] = 0 # [1..<dim1 m]"
    by (simp_all add: upt_conv_Cons)
  show ?thesis unfolding ravel_def u by (simp split: prod.splits)
qed

lemma length_ravel: "length (ravel m) = dim0 m * dim1 m * 3"
proof -
  have row: "length (concat (map (\<lambda>j. case px m i j of (r, g, b) \<Rightarrow> [r, g, b]) js))
               = length js * 3" for i js
    by (induction js) (auto split: prod.splits)
  have "length (concat (map (\<lambda>i. concat (map (\<lambda>j. case px m i j of (r, g, b) \<Rightarrow> [r, g, b])
                                               [0..<dim1 m])) is))
          = length is * (dim1 m * 3)" for "is"
    by (induction "is") (simp_all add: row)
  then show ?thesis unfolding ravel_def by simp
qed

lemma slice2_nonneg:
  assumes "0 \<le> x" "0 \<le> y"
  shows "slice2 src x (x + 16) y (y + 16) = spec_subgrid16 src x y"
proof -
  have eq: "array_of n0 n1 f = array_of n0' n1' f'"
    if "n0 = n0'" "n1 = n1'" "\<And>i j. i < n0 \<Longrightarrow> j < n1 \<Longrightarrow> f i j = f' i j"
    for n0 n1 n0' n1' f f'
    using that by (auto simp: array_of_def fun_eq_iff)
  show ?thesis
    unfolding slice2_def spec_subgrid16_def Let_def
    using assms by (intro eq) (auto simp: slice_bound_def min_def max_def)
qed

lemma spec_subgrid16_inside:
  assumes "0 \<le> x" "x + 16 \<le> int (dim0 src)" "0 \<le> y" "y + 16 \<le> int (dim1 src)"
  shows "dim0 (spec_subgrid16 src x y) = 16" "dim1 (spec_subgrid16 src x y) = 16"
    "\<forall>i<16. \<forall>j<16. px (spec_subgrid16 src x y) i j = px src (nat x + i) (nat y + j)"
  using assms by (simp_all add: spec_subgrid16_def Let_def px_array_of min_def max_def)

lemma show_window_dims:
  "dim0 (show_window st d) * dim1 (show_window st d) =
     (slice_bound (dim0 (rot90 (st_buf st) (st_rotation st))) (disp_x d + 16) -
      slice_bound (dim0 (rot90 (st_buf st) (st_rotation st))) (disp_x d)) *
     (slice_bound (dim1 (rot90 (st_buf st) (st_rotation st))) (disp_y d + 16) -
      slice_bound (dim1 (rot90 (st_buf st) (st_rotation st))) (disp_y d))"
  by (simp add: show_window_eq get_buffer_window_def PANEL_SHAPE_def slice2_def
      rot90_def [of "array_of _ _ _"] swapaxes_def flip1_def flip0_def Let_def)

section \<open>Frames\<close>

lemma frame_Inr_iff:
  "frame fmul wild b h w = Inr f \<longleftrightarrow>
     window_full w \<and> f = h # payload fmul wild b (ravel w)"
  by (auto simp: frame_def reshape768_def window_full_def)

lemma frame_Inl_iff:
  "frame fmul wild b h w = Inl e \<longleftrightarrow> \<not> window_full w \<and> e = ValueError"
  by (auto simp: frame_def reshape768_def window_full_def)

lemma uint8_of_int: "uint (word_of_int k :: 8 word) = k mod 256"
  by (simp add: uint_word_of_int_eq take_bit_eq_mod)

lemma astype_uint8_mod:
  assumes "- 1 < q" "q < 2147483648"
  shows "uint (astype_uint8 wild q) = trunc q mod 256"
  using assms by (simp add: astype_uint8_def uint8_of_int)

lemma trunc_in_range:
  assumes "- 1 < q" "q < 256"
  shows "trunc q mod 256 = saturate (trunc q)"
proof (cases "0 \<le> q")
  case True
  with assms have "0 \<le> \<lfloor>q\<rfloor>" "\<lfloor>q\<rfloor> < 256" by (simp_all add: floor_less_iff)
  with True show ?thesis by (simp add: trunc_def saturate_def)
next
  case False
  with assms have "\<lceil>q\<rceil> = 0" by (simp add: ceiling_eq_iff)
  with False show ?thesis by (simp add: trunc_def saturate_def)
qed

lemma astype_uint8_saturate:
  assumes "- 1 < q" "q < 256"
  shows "uint (astype_uint8 wild q) = saturate (trunc q)"
  using assms astype_uint8_mod [of q wild] trunc_in_range [of q] by simp

lemma keeps_byte_range_real_mul: "keeps_byte_range real_mul"
  by (simp add: keeps_byte_range_def)

lemma real_mul_byte_range:
  assumes "0 \<le> v" "v \<le> 255" "0 \<le> b" "b \<le> 1"
  shows "0 \<le> real_mul v b \<and> real_mul v b \<le> 255"
proof -
  have "of_int v * b \<le> (of_int v :: real) * 1"
    using assms by (intro mult_left_mono) simp_all
  moreover have "(of_int v :: real) \<le> 255" using assms by simp
  ultimately show ?thesis using assms by (simp add: real_mul_def)
qed

section \<open>The loop over the panel addresses\<close>

lemma upto_0_7: "[0..7] = [0, 1, 2, 3, 4, 5, 6, 7 :: int]"
  by (simp add: upto.simps)

lemma upto_0_7_range:
  assumes "length (st_displays st) = 8"
  shows "\<forall>a\<in>set [0..7]. 0 \<le> a \<and> a < int (length (st_displays st))"
  using assms by simp

lemma show_loop_raise:
  assumes "py_index (length (st_displays st)) a = Some k" "disp_enabled (st_displays st ! k)"
    and "frame fmul wild (st_brightness st) (SOF + 1 + a)
           (show_window st (st_displays st ! k)) = Inl e"
  shows "show_loop fmul wild st (a # as) = (Some e, [])"
  using assms by simp

lemma show_loop_send:
  assumes "py_index (length (st_displays st)) a = Some k" "disp_enabled (st_displays st ! k)"
    and "frame fmul wild (st_brightness st) (SOF + 1 + a)
           (show_window st (st_displays st ! k)) = Inr g"
  shows "show_loop fmul wild st (a # as) =
           (fst (show_loop fmul wild st as), g # snd (show_loop fmul wild st as))"
  using assms by (simp split: prod.splits)

text \<open>
  The whole loop: it sends the frames of the enabled addresses up to the first whose
  window does not fill a frame, and raises ValueError there.
\<close>

lemma show_loop_char:
  assumes "\<forall>a\<in>set as. 0 \<le> a \<and> a < int (length (st_displays st))"
  shows "show_loop fmul wild st as =
           (if \<forall>a\<in>set (filter (\<lambda>a. disp_enabled (st_displays st ! nat a)) as).
                 window_full (panel_window st a)
            then None else Some ValueError,
            map (\<lambda>a. (SOF + 1 + a) #
                       payload fmul wild (st_brightness st) (ravel (panel_window st a)))
              (takeWhile (\<lambda>a. window_full (panel_window st a))
                 (filter (\<lambda>a. disp_enabled (st_displays st ! nat a)) as)))"
  using assms
proof (induction as)
  case Nil
  then show ?case by simp
next
  case (Cons a as)
  then have idx: "py_index (length (st_displays st)) a = Some (nat a)"
    by (simp add: py_index_inside)
  from Cons have IH: "show_loop fmul wild st as =
           (if \<forall>a\<in>set (filter (\<lambda>a. disp_enabled (st_displays st ! nat a)) as).
                 window_full (panel_window st a)
            then None else Some ValueError,
            map (\<lambda>a. (SOF + 1 + a) #
                       payload fmul wild (st_brightness st) (ravel (panel_window st a)))
              (takeWhile (\<lambda>a. window_full (panel_window st a))
                 (filter (\<lambda>a. disp_enabled (st_displays st ! nat a)) as)))"
    by simp
  show ?case
  proof (cases "disp_enabled (st_displays st ! nat a)")
    case False
    with idx IH show ?thesis by simp
  next
    case True
    show ?thesis
    proof (cases "window_full (panel_window st a)")
      case full: True
      then have fr: "frame fmul wild (st_brightness st) (SOF + 1 + a)
                       (show_window st (st_displays st ! nat a)) =
                     Inr ((SOF + 1 + a) #
                          payload fmul wild (st_brightness st) (ravel (panel_window st a)))"
        by (simp add: frame_Inr_iff panel_window_def)
      show ?thesis
        unfolding show_loop_send [OF idx True fr] IH using True full by simp
    next
      case short: False
      then have fr: "frame fmul wild (st_brightness st) (SOF + 1 + a)
                       (show_window st (st_displays st ! nat a)) = Inl ValueError"
        by (simp add: frame_Inl_iff panel_window_def)
      show ?thesis
        unfolding show_loop_raise [OF idx True fr] using True short by simp
    qed
  qed
qed

section \<open>The example states\<close>

lemma two_panels_eq:
  "two_panels =
     \<lparr>st_rotation = 0, st_brightness = 1 / 2, st_buffer_width = 32, st_buffer_height = 16,
      st_addressing_enabled = True, st_buf = zeros 32 16,
      st_displays =
        [\<lparr>disp_enabled = False, disp_x = 0, disp_y = 0, disp_rotation = 0\<rparr>,
         \<lparr>disp_enabled = False, disp_x = 0, disp_y = 0, disp_rotation = 0\<rparr>,
         \<lparr>disp_enabled = True, disp_x = 0, disp_y = 0, disp_rotation = 0\<rparr>,
         \<lparr>disp_enabled = False, disp_x = 0, disp_y = 0, disp_rotation = 0\<rparr>,
         \<lparr>disp_enabled = False, disp_x = 0, disp_y = 0, disp_rotation = 0\<rparr>,
         \<lparr>disp_enabled = True, disp_x = 16, disp_y = 0, disp_rotation = 0\<rparr>,
         \<lparr>disp_enabled = False, disp_x = 0, disp_y = 0, disp_rotation = 0\<rparr>,
         \<lparr>disp_enabled = False, disp_x = 0, disp_y = 0, disp_rotation = 0\<rparr>]\<rparr>"
  by (simp add: two_panels_def setup_display_def enable_display_def enable_addressing_def
      setup_buffer_def initial_state_def py_index_def update_def numeral_eq_Suc)

lemma two_panels_enabled: "enabled_addresses two_panels = [2, 5]"
  by (simp add: enabled_addresses_def two_panels_eq upto_0_7)

lemma two_panels_windows:
  "window_full (panel_window two_panels 2)" "window_full (panel_window two_panels 5)"
  unfolding window_full_def panel_window_def show_window_dims
  by (simp_all add: two_panels_eq rot90_def zeros_def slice_bound_def)

lemma half_red_eq:
  "half_red = initial_state\<lparr>st_buf := array_of 16 16 (\<lambda>i j. (255, 0, 0))\<rparr>"
  by (simp add: half_red_def set_all_def resolve_color_def lower_def lower_char_def COLORS_def
      fits_int64_def initial_state_def zeros_def)

lemma half_red_values: "set (ravel (st_buf half_red)) \<subseteq> {0, 255}"
  unfolding set_ravel half_red_eq by (auto simp: cells_array_of)

lemma overdriven_eq:
  "overdriven = initial_state\<lparr>st_brightness := 2,
     st_buf := (zeros 16 16)\<lparr>px :=
       (px (zeros 16 16))(0 := (px (zeros 16 16) 0)(0 := (200, 0, 0)))\<rparr>\<rparr>"
  by (simp add: overdriven_def set_pixel_def set_brightness_def resolve_color_def py_index_def
      store_pixel_def fits_int64_def initial_state_def zeros_def array_of_def)

section \<open>Payload bytes\<close>

text \<open>
  C1, as stated, fails: the cast to uint8 keeps the low eight bits and nothing clamps.
  With brightness 2 and the red channel of pixel (0, 0) at 200, the first payload byte
  of the frame is 144 (400 modulo 256), where saturation gives 255.
\<close>

theorem show_wraps_counterexample:
  "snd (show real_mul wild_zero overdriven) ! 0 ! 1 = 144 \<and>
   saturate (trunc (real_mul
     (ravel (rot90 (st_buf overdriven) (st_rotation overdriven)) ! 0)
     (st_brightness overdriven))) = 255"
proof -
  let ?m = "st_buf overdriven"
  have r: "rot90 ?m (st_rotation overdriven) = ?m"
    by (simp add: overdriven_eq initial_state_def rot90_def)
  have d: "dim0 ?m = 16" "dim1 ?m = 16" "px ?m 0 0 = (200, 0, 0)"
    "st_brightness overdriven = 2" "\<not> st_addressing_enabled overdriven"
    by (simp_all add: overdriven_eq initial_state_def zeros_def)
  have ne: "ravel ?m \<noteq> []" using length_ravel [of ?m] d by auto
  have h: "hd (ravel ?m) = 200" using hd_ravel [of ?m] d by simp
  then have n: "ravel ?m ! 0 = 200" using ne by (simp add: hd_conv_nth)
  have sh: "snd (show real_mul wild_zero overdriven) =
              [SOF # payload real_mul wild_zero 2 (ravel ?m)]"
    by (simp add: show_def frame_def reshape768_def r d)
  have "uint (astype_uint8 wild_zero (real_mul 200 2)) = 144"
    by (simp add: astype_uint8_mod real_mul_def trunc_def)
  then have "payload real_mul wild_zero 2 (ravel ?m) ! 0 = 144"
    using ne n by (simp add: payload_def)
  moreover have "saturate (trunc (real_mul 200 2)) = 255"
    by (simp add: saturate_def trunc_def real_mul_def)
  ultimately show ?thesis unfolding sh r d n by simp
qed

text \<open>
  C1, amended. Every frame \<open>show\<close> sends carries, after its header byte, the values of
  its source window (the rotated buffer, or in addressed mode the window of an enabled
  panel), each scaled by the brightness and cast to uint8. Where every scaled channel
  value of the buffer lies in \<open>(-1, 2^31)\<close> the byte is the scaled value truncated toward
  zero and reduced modulo 256; the code has no clamp. Where every scaled value lies in
  \<open>(-1, 256)\<close> the byte equals the saturated value, and this is so for channel values in
  \<open>[0, 255]\<close> and a brightness in \<open>[0, 1]\<close> with a product that stays in \<open>[0, 255]\<close>
  there. Nothing is said of a scaled value outside \<open>(-1, 2^31)\<close>.
\<close>

theorem show_payload_bytes:
  assumes "length (st_displays st) = 8" and "f \<in> set (snd (show fmul wild st))"
  shows "\<exists>w. (if st_addressing_enabled st
               then \<exists>a\<in>set [0..7]. disp_enabled (st_displays st ! nat a) \<and>
                      hd f = SOF + 1 + a \<and> w = show_window st (st_displays st ! nat a)
               else hd f = SOF \<and> w = rot90 (st_buf st) (st_rotation st)) \<and>
              tl f = map (\<lambda>v. uint (astype_uint8 wild (fmul v (st_brightness st)))) (ravel w) \<and>
              ((\<forall>v\<in>set (ravel (st_buf st)).
                   - 1 < fmul v (st_brightness st) \<and> fmul v (st_brightness st) < 2147483648) \<longrightarrow>
               tl f = map (\<lambda>v. trunc (fmul v (st_brightness st)) mod 256) (ravel w)) \<and>
              ((\<forall>v\<in>set (ravel (st_buf st)).
                   - 1 < fmul v (st_brightness st) \<and> fmul v (st_brightness st) < 256) \<longrightarrow>
               tl f = map (\<lambda>v. saturate (trunc (fmul v (st_brightness st)))) (ravel w)) \<and>
              (keeps_byte_range fmul \<and> 0 \<le> st_brightness st \<and> st_brightness st \<le> 1 \<and>
               (\<forall>v\<in>set (ravel (st_buf st)). 0 \<le> v \<and> v \<le> 255) \<longrightarrow>
               tl f = map (\<lambda>v. saturate (trunc (fmul v (st_brightness st)))) (ravel w))"
proof -
  let ?b = "st_brightness st"
  let ?cast = "\<lambda>v. uint (astype_uint8 wild (fmul v ?b))"
  have wrap: "map ?cast (ravel w) = map (\<lambda>v. trunc (fmul v ?b) mod 256) (ravel w)"
    if "cells w \<subseteq> cells (st_buf st)"
      and "\<forall>v\<in>set (ravel (st_buf st)). - 1 < fmul v ?b \<and> fmul v ?b < 2147483648" for w
  proof -
    from that(1) have "set (ravel w) \<subseteq> set (ravel (st_buf st))" by (rule set_ravel_mono)
    with that(2) show ?thesis by (auto simp: astype_uint8_mod)
  qed
  have sat: "map ?cast (ravel w) = map (\<lambda>v. saturate (trunc (fmul v ?b))) (ravel w)"
    if "cells w \<subseteq> cells (st_buf st)"
      and "\<forall>v\<in>set (ravel (st_buf st)). - 1 < fmul v ?b \<and> fmul v ?b < 256" for w
  proof -
    from that(1) have "set (ravel w) \<subseteq> set (ravel (st_buf st))" by (rule set_ravel_mono)
    with that(2) show ?thesis by (auto simp: astype_uint8_saturate)
  qed
  have byte: "\<forall>v\<in>set (ravel (st_buf st)). - 1 < fmul v ?b \<and> fmul v ?b < 256"
    if "keeps_byte_range fmul" "0 \<le> ?b" "?b \<le> 1"
      "\<forall>v\<in>set (ravel (st_buf st)). 0 \<le> v \<and> v \<le> 255"
  proof
    fix v assume "v \<in> set (ravel (st_buf st))"
    with that(4) have "0 \<le> v" "v \<le> 255" by auto
    from real_mul_byte_range [OF this that(2,3)] that(1)
    have "0 \<le> fmul v ?b \<and> fmul v ?b \<le> 255" unfolding keeps_byte_range_def by blast
    then show "- 1 < fmul v ?b \<and> fmul v ?b < 256" by simp
  qed
  have all: "tl f = map ?cast (ravel w) \<and>
      ((\<forall>v\<in>set (ravel (st_buf st)). - 1 < fmul v ?b \<and> fmul v ?b < 2147483648) \<longrightarrow>
         tl f = map (\<lambda>v. trunc (fmul v ?b) mod 256) (ravel w)) \<and>
      ((\<forall>v\<in>set (ravel (st_buf st)). - 1 < fmul v ?b \<and> fmul v ?b < 256) \<longrightarrow>
         tl f = map (\<lambda>v. saturate (trunc (fmul v ?b))) (ravel w)) \<and>
      (keeps_byte_range fmul \<and> 0 \<le> ?b \<and> ?b \<le> 1 \<and>
       (\<forall>v\<in>set (ravel (st_buf st)). 0 \<le> v \<and> v \<le> 255) \<longrightarrow>
         tl f = map (\<lambda>v. saturate (trunc (fmul v ?b))) (ravel w))"
    if "cells w \<subseteq> cells (st_buf st)" "tl f = map ?cast (ravel w)" for w
    using wrap [OF that(1)] sat [OF that(1)] byte that(2) by metis
  show ?thesis
  proof (cases "st_addressing_enabled st")
    case True
    with assms(2) have "f \<in> set (snd (show_loop fmul wild st [0..7]))"
      by (simp add: show_def)
    then have "f \<in> (\<lambda>a. (SOF + 1 + a) #
                       payload fmul wild ?b (ravel (panel_window st a))) `
                 set (takeWhile (\<lambda>a. window_full (panel_window st a))
                        (filter (\<lambda>a. disp_enabled (st_displays st ! nat a)) [0..7]))"
      unfolding show_loop_char [OF upto_0_7_range [OF assms(1)]] by simp
    then obtain a where
      a: "a \<in> set (takeWhile (\<lambda>a. window_full (panel_window st a))
                     (filter (\<lambda>a. disp_enabled (st_displays st ! nat a)) [0..7]))"
      and f: "f = (SOF + 1 + a) # payload fmul wild ?b (ravel (panel_window st a))"
      by blast
    from a have "a \<in> set (filter (\<lambda>a. disp_enabled (st_displays st ! nat a)) [0..7])"
      by (rule set_takeWhileD [THEN conjunct1])
    then have en: "a \<in> set [0..7]" "disp_enabled (st_displays st ! nat a)" by simp_all
    let ?w = "show_window st (st_displays st ! nat a)"
    have tl: "tl f = map ?cast (ravel ?w)"
      unfolding f by (simp add: payload_def panel_window_def)
    have hd: "hd f = SOF + 1 + a" unfolding f by simp
    from True en hd
    have src: "if st_addressing_enabled st
               then \<exists>a\<in>set [0..7]. disp_enabled (st_displays st ! nat a) \<and>
                      hd f = SOF + 1 + a \<and> ?w = show_window st (st_displays st ! nat a)
               else hd f = SOF \<and> ?w = rot90 (st_buf st) (st_rotation st)"
      by auto
    show ?thesis
      by (rule exI [of _ ?w]) (rule conjI [OF src all [OF cells_show_window tl]])
  next
    case False
    let ?w = "rot90 (st_buf st) (st_rotation st)"
    from False assms(2) have "frame fmul wild ?b SOF ?w = Inr f"
      by (auto simp: show_def split: sum.splits)
    then have f: "f = SOF # payload fmul wild ?b (ravel ?w)" by (simp add: frame_Inr_iff)
    have tl: "tl f = map ?cast (ravel ?w)" unfolding f by (simp add: payload_def)
    have hd: "hd f = SOF" unfolding f by simp
    from False hd
    have src: "if st_addressing_enabled st
               then \<exists>a\<in>set [0..7]. disp_enabled (st_displays st ! nat a) \<and>
                      hd f = SOF + 1 + a \<and> ?w = show_window st (st_displays st ! nat a)
               else hd f = SOF \<and> ?w = rot90 (st_buf st) (st_rotation st)"
      by simp
    show ?thesis
      by (rule exI [of _ ?w]) (rule conjI [OF src all [OF cells_rot90 tl]])
  qed
qed

theorem show_payload_bytes_witness:
  "length (st_displays half_red) = 8 \<and>
   snd (show real_mul wild_zero half_red) =
     [SOF # payload real_mul wild_zero (1 / 2) (ravel (st_buf half_red))] \<and>
   keeps_byte_range real_mul \<and> (0::real) \<le> 1 / 2 \<and> (1::real) / 2 \<le> 1 \<and>
   set (ravel (st_buf half_red)) \<subseteq> {v. 0 \<le> v \<and> v \<le> 255} \<and>
   payload real_mul wild_zero (1 / 2) (ravel (st_buf half_red)) =
     map (\<lambda>v. saturate (trunc (real_mul v (1 / 2)))) (ravel (st_buf half_red))"
proof -
  let ?f = "SOF # payload real_mul wild_zero (1 / 2) (ravel (st_buf half_red))"
  have len: "length (st_displays half_red) = 8"
    by (simp add: half_red_eq initial_state_def)
  have sh: "snd (show real_mul wild_zero half_red) = [?f]"
    by (simp add: show_def frame_def reshape768_def rot90_def half_red_eq initial_state_def)
  have rng: "\<forall>v\<in>set (ravel (st_buf half_red)). 0 \<le> v \<and> v \<le> 255"
    using half_red_values by auto
  have mem: "?f \<in> set (snd (show real_mul wild_zero half_red))" unfolding sh by simp
  have b: "st_brightness half_red = 1 / 2" "\<not> st_addressing_enabled half_red"
    "rot90 (st_buf half_red) (st_rotation half_red) = st_buf half_red"
    by (simp_all add: half_red_eq initial_state_def rot90_def)
  from show_payload_bytes [OF len mem] rng b keeps_byte_range_real_mul
  have "payload real_mul wild_zero (1 / 2) (ravel (st_buf half_red)) =
     map (\<lambda>v. saturate (trunc (real_mul v (1 / 2)))) (ravel (st_buf half_red))"
    by auto
  moreover from rng
  have "set (ravel (st_buf half_red)) \<subseteq> {v. 0 \<le> v \<and> v \<le> 255}" by blast
  ultimately show ?thesis using len sh keeps_byte_range_real_mul by simp
qed

section \<open>Frames of the chain\<close>

text \<open>
  C2, as stated, fails: with the panel at address 0 configured at offset (8, 0) on the
  16 by 16 buffer, its window holds 384 values, \<open>reshape(768)\<close> raises ValueError and
  no frame is sent although one panel is enabled.
\<close>

theorem show_short_window_counterexample:
  "show real_mul wild_zero
     (snd (setup_display (enable_addressing initial_state True) 0 8 0 0)) =
     (Some ValueError, []) \<and>
   disp_enabled
     (st_displays (snd (setup_display (enable_addressing initial_state True) 0 8 0 0)) ! 0)"
  by (simp add: show_def upto_0_7 setup_display_def enable_display_def enable_addressing_def
      initial_state_def py_index_def update_def frame_def reshape768_def
      show_window_eq get_buffer_window_def PANEL_SHAPE_def slice2_def slice_bound_def
      rot90_def swapaxes_def flip1_def zeros_def)

text \<open>
  C2, amended. In addressed mode \<open>show\<close> visits the addresses 0 to 7 in ascending order
  and sends no frame for a disabled panel. It returns normally exactly when the window of
  every enabled panel holds 768 values, and has then sent exactly one frame per enabled
  panel, the frame of the panel at address \<open>a\<close> headed by \<open>0x72 + 1 + a\<close>. Otherwise it
  raises ValueError at the first enabled panel whose window does not hold 768 values,
  having sent the frames of the enabled panels before that one and no other.
\<close>

theorem show_addressed_frames:
  assumes "st_addressing_enabled st" and "length (st_displays st) = 8"
  shows "show fmul wild st =
           (if \<forall>a\<in>set (enabled_addresses st). window_full (panel_window st a)
            then None else Some ValueError,
            map (\<lambda>a. (0x72 + 1 + a) #
                       payload fmul wild (st_brightness st) (ravel (panel_window st a)))
              (takeWhile (\<lambda>a. window_full (panel_window st a)) (enabled_addresses st))) \<and>
         (fst (show fmul wild st) = None \<longleftrightarrow>
            (\<forall>a\<in>set (enabled_addresses st). window_full (panel_window st a))) \<and>
         (fst (show fmul wild st) = None \<longrightarrow>
            map hd (snd (show fmul wild st)) = map (\<lambda>a. 0x72 + 1 + a) (enabled_addresses st))"
proof -
  from assms(1) have s: "show fmul wild st = show_loop fmul wild st [0..7]"
    by (simp add: show_def)
  have c: "show fmul wild st =
           (if \<forall>a\<in>set (enabled_addresses st). window_full (panel_window st a)
            then None else Some ValueError,
            map (\<lambda>a. (0x72 + 1 + a) #
                       payload fmul wild (st_brightness st) (ravel (panel_window st a)))
              (takeWhile (\<lambda>a. window_full (panel_window st a)) (enabled_addresses st)))"
    unfolding s show_loop_char [OF upto_0_7_range [OF assms(2)]] enabled_addresses_def
    by (simp add: SOF_def)
  have ok: "fst (show fmul wild st) = None \<longleftrightarrow>
            (\<forall>a\<in>set (enabled_addresses st). window_full (panel_window st a))"
    unfolding c by simp
  have hd: "map hd (snd (show fmul wild st)) = map (\<lambda>a. 0x72 + 1 + a) (enabled_addresses st)"
    if "fst (show fmul wild st) = None"
  proof -
    from that ok have "\<forall>a\<in>set (enabled_addresses st). window_full (panel_window st a)"
      by simp
    then have "takeWhile (\<lambda>a. window_full (panel_window st a)) (enabled_addresses st) =
                 enabled_addresses st"
      by (simp add: takeWhile_eq_all_conv)
    then show ?thesis unfolding c by (simp add: comp_def)
  qed
  from c ok hd show ?thesis by blast
qed

theorem show_addressed_frames_witness:
  "st_addressing_enabled two_panels \<and> length (st_displays two_panels) = 8 \<and>
   fst (show real_mul wild_zero two_panels) = None \<and>
   map hd (snd (show real_mul wild_zero two_panels)) = [0x72 + 1 + 2, 0x72 + 1 + 5]"
proof -
  have a: "st_addressing_enabled two_panels" "length (st_displays two_panels) = 8"
    by (simp_all add: two_panels_eq)
  from show_addressed_frames [OF a, of real_mul wild_zero] two_panels_windows a
  show ?thesis by (simp add: two_panels_enabled)
qed

section \<open>The window of a panel\<close>

text \<open>
  C3, as stated, fails for a negative offset: Python's slice counts a negative bound
  from the end. On the 16 by 16 buffer the offset (-20, 0) gives the slice
  \<open>source[-20:-4, 0:16]\<close>, the rows 0 to 11, while no cell of the square with top-left
  corner (-20, 0) lies in the buffer.
\<close>

theorem show_window_negative_counterexample:
  "show_window initial_state
     \<lparr>disp_enabled = True, disp_x = - 20, disp_y = 0, disp_rotation = 0\<rparr>
     \<noteq> spec_window (st_buf initial_state) (st_rotation initial_state) (- 20) 0 0"
proof -
  have "dim1 (show_window initial_state
          \<lparr>disp_enabled = True, disp_x = - 20, disp_y = 0, disp_rotation = 0\<rparr>) = 12"
    by (simp add: show_window_eq get_buffer_window_def PANEL_SHAPE_def slice2_def
        slice_bound_def rot90_def swapaxes_def flip1_def zeros_def initial_state_def)
  moreover have "dim1 (spec_window (st_buf initial_state) (st_rotation initial_state)
                   (- 20) 0 0) = 0"
    by (simp add: spec_window_def spec_subgrid16_def rot90_def swapaxes_def flip1_def
        zeros_def initial_state_def)
  ultimately show ?thesis by auto
qed

text \<open>
  C3, amended. For every panel with a non-negative offset \<open>(x, y)\<close> and rotation step
  \<open>r\<close>, the window used in addressed mode is the specified composition: the whole buffer
  rotated by the global step, then the square at \<open>(x, y)\<close> cut to the rotated buffer,
  then a rotation by \<open>r + 1\<close> quarter-turns. When the square lies inside the rotated
  buffer the slice is 16 by 16 and its cell \<open>(i, j)\<close> is the cell \<open>(x + i, y + j)\<close>.
\<close>

theorem show_window_composition:
  assumes "0 \<le> disp_x d" "0 \<le> disp_y d"
  shows "show_window st d =
           spec_window (st_buf st) (st_rotation st) (disp_x d) (disp_y d) (disp_rotation d) \<and>
         (disp_x d + 16 \<le> int (dim0 (rot90 (st_buf st) (st_rotation st))) \<and>
          disp_y d + 16 \<le> int (dim1 (rot90 (st_buf st) (st_rotation st))) \<longrightarrow>
            dim0 (spec_subgrid16 (rot90 (st_buf st) (st_rotation st)) (disp_x d) (disp_y d)) = 16 \<and>
            dim1 (spec_subgrid16 (rot90 (st_buf st) (st_rotation st)) (disp_x d) (disp_y d)) = 16 \<and>
            (\<forall>i<16. \<forall>j<16.
               px (spec_subgrid16 (rot90 (st_buf st) (st_rotation st)) (disp_x d) (disp_y d)) i j =
               px (rot90 (st_buf st) (st_rotation st)) (nat (disp_x d) + i) (nat (disp_y d) + j)))"
proof -
  have "show_window st d =
          spec_window (st_buf st) (st_rotation st) (disp_x d) (disp_y d) (disp_rotation d)"
    using assms
    by (simp add: show_window_eq get_buffer_window_def PANEL_SHAPE_def slice2_nonneg
        spec_window_def)
  then show ?thesis using assms spec_subgrid16_inside by blast
qed

theorem show_window_composition_witness:
  "(0::int) \<le> 16 \<and> (0::int) \<le> 0 \<and>
   (16::int) + 16 \<le> int (dim0 (rot90 (st_buf two_panels) (st_rotation two_panels))) \<and>
   (0::int) + 16 \<le> int (dim1 (rot90 (st_buf two_panels) (st_rotation two_panels))) \<and>
   show_window two_panels (st_displays two_panels ! 5) =
     spec_window (st_buf two_panels) (st_rotation two_panels) 16 0 0 \<and>
   dim0 (spec_subgrid16 (rot90 (st_buf two_panels) (st_rotation two_panels)) 16 0) = 16"
  using show_window_composition [of "st_displays two_panels ! 5" two_panels]
  by (simp add: two_panels_eq rot90_def zeros_def)

section \<open>The safe pixel setter\<close>

text \<open>
  C4. The guard of \<open>safe_set_pixel\<close> compares the coordinate with the constants
  \<open>WIDTH\<close> and \<open>HEIGHT\<close> (16), not with the shape of the current buffer. After
  \<open>setup_buffer(8, 8)\<close> the coordinate (10, 10) is outside the buffer, passes the guard
  and raises IndexError in \<open>set_pixel\<close>; after \<open>setup_buffer(32, 32)\<close> the coordinate
  (20, 20) is inside the buffer, fails the guard and is dropped, where \<open>set_pixel\<close>
  writes it.
\<close>

theorem safe_set_pixel_fixed_bounds:
  "safe_set_pixel (snd (setup_buffer initial_state 8 8)) 10 10 (ColorRGB 255 0 0) =
     (Some IndexError, snd (setup_buffer initial_state 8 8)) \<and>
   safe_set_pixel (snd (setup_buffer initial_state 32 32)) 20 20 (ColorRGB 255 0 0) =
     (None, snd (setup_buffer initial_state 32 32)) \<and>
   get_pixel (snd (set_pixel (snd (setup_buffer initial_state 32 32)) 20 20 (ColorRGB 255 0 0)))
     20 20 = Inr (255, 0, 0)"
  by (simp add: safe_set_pixel_def set_pixel_def get_pixel_def setup_buffer_def initial_state_def
      zeros_def array_of_def py_index_def resolve_color_def WIDTH_def HEIGHT_def
      store_pixel_def fits_int64_def)

section \<open>Global rotation\<close>

lemma py_round_cases:
  "py_round q =
     (if q - of_int \<lfloor>q\<rfloor> < 1 / 2 then \<lfloor>q\<rfloor>
      else if 1 / 2 < q - of_int \<lfloor>q\<rfloor> then \<lfloor>q\<rfloor> + 1
      else if even \<lfloor>q\<rfloor> then \<lfloor>q\<rfloor> else \<lfloor>q\<rfloor> + 1)"
  by (simp add: py_round_def Let_def)

lemma py_round_near: "\<bar>of_int (py_round q) - q\<bar> \<le> 1 / 2"
proof -
  have "of_int \<lfloor>q\<rfloor> \<le> q" "q < of_int \<lfloor>q\<rfloor> + 1" by linarith+
  then show ?thesis unfolding py_round_cases by (auto split: if_splits)
qed

lemma py_round_quarter_iff: "py_round q \<in> {0, 1, 2, 3} \<longleftrightarrow> - 1 / 2 \<le> q \<and> q < 7 / 2"
proof
  assume k: "py_round q \<in> {0, 1, 2, 3}"
  then have "0 \<le> py_round q" "py_round q \<le> 3" by auto
  then have "(0::real) \<le> of_int (py_round q)" "of_int (py_round q) \<le> (3::real)"
    by simp_all
  with py_round_near [of q] have b: "- 1 / 2 \<le> q" "q \<le> 7 / 2" by linarith+
  have "q \<noteq> 7 / 2"
  proof
    assume q: "q = 7 / 2"
    have "\<lfloor>7 / 2 :: real\<rfloor> = 3" by simp
    then have "py_round (7 / 2) = 4" unfolding py_round_cases by simp
    with k q show False by simp
  qed
  with b show "- 1 / 2 \<le> q \<and> q < 7 / 2" by simp
next
  assume b: "- 1 / 2 \<le> q \<and> q < 7 / 2"
  have fl: "of_int \<lfloor>q\<rfloor> \<le> q" "q < of_int \<lfloor>q\<rfloor> + 1" by linarith+
  with b have "- 1 \<le> \<lfloor>q\<rfloor>" "\<lfloor>q\<rfloor> \<le> 3" by linarith+
  then consider "\<lfloor>q\<rfloor> = - 1" | "\<lfloor>q\<rfloor> = 0" | "\<lfloor>q\<rfloor> = 1" | "\<lfloor>q\<rfloor> = 2" | "\<lfloor>q\<rfloor> = 3"
    by linarith
  then show "py_round q \<in> {0, 1, 2, 3}"
  proof cases
    case 1
    with b fl show ?thesis unfolding py_round_cases by simp
  next
    case 2
    then show ?thesis unfolding py_round_cases by simp
  next
    case 3
    then show ?thesis unfolding py_round_cases by simp
  next
    case 4
    then show ?thesis unfolding py_round_cases by simp
  next
    case 5
    with b fl show ?thesis unfolding py_round_cases by simp
  qed
qed

text \<open>
  C5, as stated, fails: the stored step is not reduced modulo 4, so \<open>set_rotation(360)\<close>
  makes \<open>get_rotation()\<close> return 360.
\<close>

theorem get_rotation_counterexample:
  "get_rotation (snd (set_rotation exact_div90 initial_state 360)) \<notin> {0, 90, 180, 270}"
  by (simp add: get_rotation_def set_rotation_def exact_div90_def py_round_def)

text \<open>
  C5, amended. For an angle \<open>r\<close> whose quotient \<open>r / 90.0\<close> is the double \<open>q\<close>,
  \<open>set_rotation(r)\<close> returns normally and \<open>get_rotation()\<close> then returns 90 times the
  integer nearest to \<open>q\<close> (a tie to the even one): a multiple of 90 at most 45 away from
  \<open>90 q\<close>, so at most \<open>45 + 90 e\<close> away from \<open>r\<close> when \<open>q\<close> is within \<open>e\<close> of \<open>r / 90\<close>
  and at most 45 away when the quotient is exact. The value is not normalised: it is
  one of 0, 90, 180, 270 exactly when \<open>-1/2 \<le> q < 7/2\<close>. An integer angle too large for
  a double raises OverflowError and leaves the state as it was.
\<close>

theorem get_rotation_snapped:
  "(fdiv r = None \<longrightarrow> set_rotation fdiv st r = (Some OverflowError, st)) \<and>
   (fdiv r = Some q \<longrightarrow>
      fst (set_rotation fdiv st r) = None \<and>
      get_rotation (snd (set_rotation fdiv st r)) = 90 * py_round q \<and>
      \<bar>of_int (get_rotation (snd (set_rotation fdiv st r))) - 90 * q\<bar> \<le> 45 \<and>
      (\<bar>q - r / 90\<bar> \<le> e \<longrightarrow>
         \<bar>of_int (get_rotation (snd (set_rotation fdiv st r))) - r\<bar> \<le> 45 + 90 * e) \<and>
      (get_rotation (snd (set_rotation fdiv st r)) \<in> {0, 90, 180, 270} \<longleftrightarrow>
         - 1 / 2 \<le> q \<and> q < 7 / 2))"
proof (intro conjI impI)
  assume "fdiv r = None"
  then show "set_rotation fdiv st r = (Some OverflowError, st)"
    by (simp add: set_rotation_def)
next
  assume q: "fdiv r = Some q"
  then show "fst (set_rotation fdiv st r) = None" by (simp add: set_rotation_def)
  from q have g: "get_rotation (snd (set_rotation fdiv st r)) = 90 * py_round q"
    by (simp add: set_rotation_def get_rotation_def)
  then show "get_rotation (snd (set_rotation fdiv st r)) = 90 * py_round q" .
  have near: "\<bar>of_int (90 * py_round q) - 90 * q\<bar> \<le> 45"
  proof -
    from py_round_near [of q]
    have "of_int (py_round q) - q \<le> 1 / 2" "q - of_int (py_round q) \<le> 1 / 2"
      by linarith+
    then show ?thesis by (simp add: abs_le_iff)
  qed
  then show "\<bar>of_int (get_rotation (snd (set_rotation fdiv st r))) - 90 * q\<bar> \<le> 45"
    unfolding g .
  show "\<bar>of_int (get_rotation (snd (set_rotation fdiv st r))) - r\<bar> \<le> 45 + 90 * e"
    if "\<bar>q - r / 90\<bar> \<le> e"
  proof -
    from that have "\<bar>90 * q - r\<bar> \<le> 90 * e" by (simp add: abs_le_iff field_simps)
    with near show ?thesis unfolding g by linarith
  qed
  have "90 * py_round q \<in> {0, 90, 180, 270} \<longleftrightarrow> py_round q \<in> {0, 1, 2, 3}" by auto
  then show "get_rotation (snd (set_rotation fdiv st r)) \<in> {0, 90, 180, 270} \<longleftrightarrow>
         - 1 / 2 \<le> q \<and> q < 7 / 2"
    unfolding g py_round_quarter_iff [symmetric] .
qed

theorem get_rotation_snapped_witness:
  "exact_div90 135 = Some (3 / 2) \<and> \<bar>(3::real) / 2 - 135 / 90\<bar> \<le> 0 \<and>
   - 1 / 2 \<le> (3::real) / 2 \<and> (3::real) / 2 < 7 / 2 \<and>
   fst (set_rotation exact_div90 initial_state 135) = None \<and>
   get_rotation (snd (set_rotation exact_div90 initial_state 135)) = 180 \<and>
   \<bar>of_int (get_rotation (snd (set_rotation exact_div90 initial_state 135))) - (135::real)\<bar> \<le> 45"
  using get_rotation_snapped [of exact_div90 135 initial_state "3 / 2" 0]
  by (simp add: exact_div90_def py_round_def)

section \<open>Panel addresses\<close>

text \<open>
  C6, as stated, fails: \<open>_displays[address]\<close> is a Python list index, so the address -1
  is the last slot. \<open>setup_display(-1, 1, 2, 3)\<close> returns normally and rewrites slot 7.
\<close>

theorem display_address_counterexample:
  "fst (setup_display initial_state (- 1) 1 2 3) = None \<and>
   st_displays (snd (setup_display initial_state (- 1) 1 2 3)) ! 7 =
     \<lparr>disp_enabled = True, disp_x = 1, disp_y = 2, disp_rotation = 3\<rparr> \<and>
   st_displays (snd (setup_display initial_state (- 1) 1 2 3)) \<noteq> st_displays initial_state"
  by (simp add: setup_display_def enable_display_def initial_state_def py_index_def update_def
      numeral_eq_Suc)

lemma display_overwritten:
  "(d :: display)\<lparr>disp_x := x, disp_y := y, disp_rotation := rotation, disp_enabled := True\<rparr>
     = \<lparr>disp_enabled = True, disp_x = x, disp_y = y, disp_rotation = rotation\<rparr>"
  by (cases d) simp

text \<open>
  C6, amended. For every address outside \<open>[-8, 7]\<close> (such as 9 or -9), \<open>setup_display\<close>
  and \<open>enable_display\<close> raise IndexError and leave the whole state, so every slot of the
  chain, as it was. For every address in \<open>[-8, 7]\<close> both return normally and change
  one slot only, the slot \<open>address\<close> when it is not negative and the slot \<open>address + 8\<close>
  when it is: \<open>setup_display\<close> sets its offsets and rotation and enables it,
  \<open>enable_display\<close> sets its enabled flag.
\<close>

theorem display_address_index:
  assumes "length (st_displays st) = 8"
  shows "(address < - 8 \<or> 7 < address \<longrightarrow>
            setup_display st address x y rotation = (Some IndexError, st) \<and>
            enable_display st address en = (Some IndexError, st)) \<and>
         (- 8 \<le> address \<and> address \<le> 7 \<longrightarrow>
            setup_display st address x y rotation =
              (None, st\<lparr>st_displays := (st_displays st)[from_end 8 address :=
                 \<lparr>disp_enabled = True, disp_x = x, disp_y = y, disp_rotation = rotation\<rparr>]\<rparr>) \<and>
            enable_display st address en =
              (None, st\<lparr>st_displays := (st_displays st)[from_end 8 address :=
                 (st_displays st ! from_end 8 address)\<lparr>disp_enabled := en\<rparr>]\<rparr>))"
proof (intro conjI impI)
  assume "address < - 8 \<or> 7 < address"
  with assms have n: "py_index (length (st_displays st)) address = None"
    by (auto simp: py_index_None_iff)
  then show "setup_display st address x y rotation = (Some IndexError, st)"
    by (simp add: setup_display_def)
  from n show "enable_display st address en = (Some IndexError, st)"
    by (simp add: enable_display_def)
next
  assume a: "- 8 \<le> address \<and> address \<le> 7"
  with assms have k: "py_index (length (st_displays st)) address = Some (from_end 8 address)"
    by (auto simp: py_index_def from_end_def)
  from a assms have lt: "from_end 8 address < length (st_displays st)"
    by (auto simp: from_end_def)
  show "enable_display st address en =
          (None, st\<lparr>st_displays := (st_displays st)[from_end 8 address :=
             (st_displays st ! from_end 8 address)\<lparr>disp_enabled := en\<rparr>]\<rparr>)"
    using k by (simp add: enable_display_def)
  show "setup_display st address x y rotation =
          (None, st\<lparr>st_displays := (st_displays st)[from_end 8 address :=
             \<lparr>disp_enabled = True, disp_x = x, disp_y = y, disp_rotation = rotation\<rparr>]\<rparr>)"
    using k lt
    by (simp add: setup_display_def enable_display_def update_def display_overwritten)
qed

theorem display_address_index_witness:
  "length (st_displays initial_state) = 8 \<and> ((9::int) < - 8 \<or> 7 < (9::int)) \<and>
   setup_display initial_state 9 1 2 3 = (Some IndexError, initial_state) \<and>
   enable_display initial_state 9 True = (Some IndexError, initial_state) \<and>
   - 8 \<le> (- 3::int) \<and> (- 3::int) \<le> 7 \<and> from_end 8 (- 3) = 5 \<and>
   st_displays (snd (setup_display initial_state (- 3) 1 2 3)) ! 5 =
     \<lparr>disp_enabled = True, disp_x = 1, disp_y = 2, disp_rotation = 3\<rparr> \<and>
   disp_enabled (st_displays (snd (enable_display initial_state (- 3) True)) ! 5)"
  using display_address_index [of initial_state 9 1 2 3 True]
    display_address_index [of initial_state "- 3" 1 2 3 True]
  by (simp add: initial_state_def from_end_def)

section \<open>Unchecked pixel access\<close>

text \<open>
  C7, as stated, fails: numpy counts a negative index from the end. On the 16 by 16
  buffer \<open>get_pixel(-1, -1)\<close> returns the pixel at (15, 15) and \<open>set_pixel(-1, -1, ...)\<close>
  writes it.
\<close>

theorem pixel_negative_counterexample:
  "get_pixel initial_state (- 1) (- 1) = Inr (0, 0, 0) \<and>
   fst (set_pixel initial_state (- 1) (- 1) (ColorRGB 1 2 3)) = None \<and>
   get_pixel (snd (set_pixel initial_state (- 1) (- 1) (ColorRGB 1 2 3))) 15 15 = Inr (1, 2, 3)"
  by (simp add: get_pixel_def set_pixel_def initial_state_def zeros_def array_of_def py_index_def
      resolve_color_def store_pixel_def fits_int64_def)

text \<open>
  C7, amended. \<open>get_pixel\<close>, and \<open>set_pixel\<close> with a colour that resolves to three values
  an int64 holds, raise IndexError if and only if \<open>x\<close> is outside \<open>[-width, width)\<close> or
  \<open>y\<close> is outside \<open>[-height, height)\<close>, and leave the state as it was. Otherwise both
  return normally and access one cell, a negative coordinate counted from the end:
  \<open>get_pixel\<close> returns that cell and \<open>set_pixel\<close> writes the colour to it and to no other.
  Inside \<open>[0, width) x [0, height)\<close> the cell is \<open>(x, y)\<close>.
\<close>

theorem pixel_index_error_iff:
  assumes "resolve_color c = Inr (r, g, b)"
    and "fits_int64 r" "fits_int64 g" "fits_int64 b"
  shows "(\<not> (- int (dim0 (st_buf st)) \<le> x \<and> x < int (dim0 (st_buf st)) \<and>
             - int (dim1 (st_buf st)) \<le> y \<and> y < int (dim1 (st_buf st))) \<longrightarrow>
            set_pixel st x y c = (Some IndexError, st) \<and>
            get_pixel st x y = Inl IndexError) \<and>
         (- int (dim0 (st_buf st)) \<le> x \<and> x < int (dim0 (st_buf st)) \<and>
          - int (dim1 (st_buf st)) \<le> y \<and> y < int (dim1 (st_buf st)) \<longrightarrow>
            set_pixel st x y c =
              (None, st\<lparr>st_buf := (st_buf st)\<lparr>px :=
                 (px (st_buf st))(from_end (dim0 (st_buf st)) x :=
                    (px (st_buf st) (from_end (dim0 (st_buf st)) x))
                      (from_end (dim1 (st_buf st)) y := (r, g, b)))\<rparr>\<rparr>) \<and>
            get_pixel st x y =
              Inr (px (st_buf st) (from_end (dim0 (st_buf st)) x)
                                  (from_end (dim1 (st_buf st)) y))) \<and>
         (0 \<le> x \<and> x < int (dim0 (st_buf st)) \<and> 0 \<le> y \<and> y < int (dim1 (st_buf st)) \<longrightarrow>
            from_end (dim0 (st_buf st)) x = nat x \<and> from_end (dim1 (st_buf st)) y = nat y)"
proof (intro conjI impI)
  assume out: "\<not> (- int (dim0 (st_buf st)) \<le> x \<and> x < int (dim0 (st_buf st)) \<and>
             - int (dim1 (st_buf st)) \<le> y \<and> y < int (dim1 (st_buf st)))"
  then have "py_index (dim0 (st_buf st)) x = None \<or> py_index (dim1 (st_buf st)) y = None"
    by (auto simp: py_index_None_iff)
  then show "set_pixel st x y c = (Some IndexError, st)"
    using assms(1) by (auto simp: set_pixel_def split: option.splits)
  from out have "py_index (dim0 (st_buf st)) x = None \<or> py_index (dim1 (st_buf st)) y = None"
    by (auto simp: py_index_None_iff)
  then show "get_pixel st x y = Inl IndexError"
    by (auto simp: get_pixel_def split: option.splits)
next
  assume inr: "- int (dim0 (st_buf st)) \<le> x \<and> x < int (dim0 (st_buf st)) \<and>
          - int (dim1 (st_buf st)) \<le> y \<and> y < int (dim1 (st_buf st))"
  then have i: "py_index (dim0 (st_buf st)) x = Some (from_end (dim0 (st_buf st)) x)"
    and j: "py_index (dim1 (st_buf st)) y = Some (from_end (dim1 (st_buf st)) y)"
    by (auto simp: py_index_def from_end_def)
  show "set_pixel st x y c =
              (None, st\<lparr>st_buf := (st_buf st)\<lparr>px :=
                 (px (st_buf st))(from_end (dim0 (st_buf st)) x :=
                    (px (st_buf st) (from_end (dim0 (st_buf st)) x))
                      (from_end (dim1 (st_buf st)) y := (r, g, b)))\<rparr>\<rparr>)"
    using assms i j by (simp add: set_pixel_def store_pixel_def split: prod.splits)
  show "get_pixel st x y =
              Inr (px (st_buf st) (from_end (dim0 (st_buf st)) x)
                                  (from_end (dim1 (st_buf st)) y))"
    using i j by (simp add: get_pixel_def)
next
  assume "0 \<le> x \<and> x < int (dim0 (st_buf st)) \<and> 0 \<le> y \<and> y < int (dim1 (st_buf st))"
  then show "from_end (dim0 (st_buf st)) x = nat x" "from_end (dim1 (st_buf st)) y = nat y"
    by (simp_all add: from_end_def)
qed

theorem pixel_index_error_iff_witness:
  "resolve_color (ColorRGB 1 2 3) = Inr (1, 2, 3) \<and>
   fits_int64 1 \<and> fits_int64 2 \<and> fits_int64 3 \<and>
   set_pixel initial_state 16 0 (ColorRGB 1 2 3) = (Some IndexError, initial_state) \<and>
   get_pixel initial_state (- 17) 0 = Inl IndexError \<and>
   fst (set_pixel initial_state (- 16) 4 (ColorRGB 1 2 3)) = None \<and>
   get_pixel (snd (set_pixel initial_state (- 16) 4 (ColorRGB 1 2 3))) 0 4 = Inr (1, 2, 3) \<and>
   get_pixel initial_state 3 (- 2) = Inr (px (st_buf initial_state) 3 14)"
  using pixel_index_error_iff [of "ColorRGB 1 2 3" 1 2 3 initial_state 16 0]
    pixel_index_error_iff [of "ColorRGB 1 2 3" 1 2 3 initial_state "- 17" 0]
    pixel_index_error_iff [of "ColorRGB 1 2 3" 1 2 3 initial_state "- 16" 4]
    pixel_index_error_iff [of "ColorRGB 1 2 3" 1 2 3 initial_state 3 "- 2"]
  by (simp add: resolve_color_def fits_int64_def initial_state_def zeros_def array_of_def
      from_end_def get_pixel_def py_index_def)

section \<open>Whole-buffer access\<close>

text \<open>
  C8. \<open>set_pixels(buf)\<close> leaves the module's buffer as it was: after it, \<open>get_pixels()\<close>
  on the initial state still returns the zero buffer, not the grid of ones passed in.
\<close>

theorem set_pixels_no_effect:
  "get_pixels (set_pixels initial_state (array_of 16 16 (\<lambda>i j. (1, 1, 1)))) = zeros 16 16 \<and>
   get_pixels (set_pixels initial_state (array_of 16 16 (\<lambda>i j. (1, 1, 1))))
     \<noteq> array_of 16 16 (\<lambda>i j. (1, 1, 1))"
proof -
  have "px (zeros 16 16) 0 0 \<noteq> px (array_of 16 16 (\<lambda>i j. (1, 1, 1))) 0 0"
    by (simp add: zeros_def array_of_def)
  then have "zeros 16 16 \<noteq> array_of 16 16 (\<lambda>i j. (1, 1, 1))" by metis
  then show ?thesis by (simp add: get_pixels_def set_pixels_def initial_state_def)
qed

section \<open>Single pixels\<close>

text \<open>
  C9. For every coordinate inside the current buffer and every \<open>r\<close>, \<open>g\<close>, \<open>b\<close> in
  \<open>[0, 255]\<close>, \<open>set_pixel(x, y, r, g, b)\<close> returns normally and \<open>get_pixel(x, y)\<close> then
  returns \<open>(r, g, b)\<close>.
\<close>

theorem set_get_pixel:
  assumes "0 \<le> x" "x < int (dim0 (st_buf st))" "0 \<le> y" "y < int (dim1 (st_buf st))"
    and "0 \<le> r \<and> r \<le> 255" "0 \<le> g \<and> g \<le> 255" "0 \<le> b \<and> b \<le> 255"
  shows "fst (set_pixel st x y (ColorRGB r g b)) = None \<and>
         get_pixel (snd (set_pixel st x y (ColorRGB r g b))) x y = Inr (r, g, b)"
  using assms
  by (simp add: set_pixel_def get_pixel_def resolve_color_def py_index_inside store_pixel_def
      fits_int64_def split: prod.splits)

theorem set_get_pixel_witness:
  "(0::int) \<le> 3 \<and> (3::int) < int (dim0 (st_buf initial_state)) \<and>
   (0::int) \<le> 4 \<and> (4::int) < int (dim1 (st_buf initial_state)) \<and>
   fst (set_pixel initial_state 3 4 (ColorRGB 10 20 30)) = None \<and>
   get_pixel (snd (set_pixel initial_state 3 4 (ColorRGB 10 20 30))) 3 4 = Inr (10, 20, 30)"
  using set_get_pixel [of 3 initial_state 4 10 20 30]
  by (simp add: initial_state_def zeros_def array_of_def)

section \<open>Colour names\<close>

text \<open>
  C10. When the lowercased name is not a key of \<open>COLORS\<close>, \<open>set_all\<close> and \<open>set_pixel\<close>
  raise ValueError and the state, so the pixel buffer, is exactly as before the call.
\<close>

theorem invalid_color_name:
  assumes "map_of COLORS (lower s) = None"
  shows "set_all st (ColorName s) = (Some ValueError, st) \<and>
         set_pixel st x y (ColorName s) = (Some ValueError, st)"
  using assms by (simp add: set_all_def set_pixel_def resolve_color_def)

theorem invalid_color_name_witness:
  "map_of COLORS (lower ''Pink'') = None \<and>
   set_all initial_state (ColorName ''Pink'') = (Some ValueError, initial_state) \<and>
   set_pixel initial_state 0 0 (ColorName ''Pink'') = (Some ValueError, initial_state)"
  using invalid_color_name [of "''Pink''" initial_state 0 0]
  by (simp add: lower_def lower_char_def COLORS_def)

end
